theory Spec2Isabelle
  imports Main
begin

section \<open>The probe script \<^verbatim>\<open>hook_open.js\<close>\<close>

text \<open>
  The script is fifteen lines of glue around three primitives of the host
  instrumentation runtime:
  \<^verbatim>\<open>
  console.log("[*] ...(v12)...");
  setTimeout(function() {
      Java.perform(function() {
          console.log("\n[+] ...");
          console.log("[+] Java ...");
          console.log("[+] ...");
      });
  }, 1000);
  \<close>
  The host keeps the callbacks it is handed until it runs them, so a callback
  is data: a block of host calls. The script is a value of the type of host
  calls below; what the calls do is the host's business and is given
  separately, as a state transformer on a record of the host's state.
\<close>

subsection \<open>Host calls\<close>

datatype call =
    Console_log string
  | SetTimeout "call list" nat
  | Java_perform "call list"

subsection \<open>The four string literals\<close>

text \<open>
  The source file is UTF-8; a \<^typ>\<open>string\<close> holds bytes, so each literal is the
  byte sequence between its quotes, with the escape \<^verbatim>\<open>\n\<close> read as the byte 0x0A.
\<close>

definition newline :: char where
  "newline = CHR 0x0A"

definition load_marker :: string where
  "load_marker = ''[*] '' @
     [CHR 0xE6, CHR 0xB5, CHR 0x8B, CHR 0xE8, CHR 0xAF, CHR 0x95,
      CHR 0xE8, CHR 0x84, CHR 0x9A, CHR 0xE6, CHR 0x9C, CHR 0xAC] @
     ''(v12)'' @
     [CHR 0xE5, CHR 0xB7, CHR 0xB2, CHR 0xE6, CHR 0xB3, CHR 0xA8,
      CHR 0xE5, CHR 0x85, CHR 0xA5] @
     ''...''"

text \<open>The second literal is \<open>newline # attached_marker\<close>: it starts with \<^verbatim>\<open>\n\<close>.\<close>

definition attached_marker :: string where
  "attached_marker = ''[+] '' @
     [CHR 0xE8, CHR 0x84, CHR 0x9A, CHR 0xE6, CHR 0x9C, CHR 0xAC,
      CHR 0xE6, CHR 0x88, CHR 0x90, CHR 0xE5, CHR 0x8A, CHR 0x9F,
      CHR 0xE5, CHR 0x9C, CHR 0xA8, CHR 0xE7, CHR 0x9B, CHR 0xAE,
      CHR 0xE6, CHR 0xA0, CHR 0x87, CHR 0xE8, CHR 0xBF, CHR 0x9B,
      CHR 0xE7, CHR 0xA8, CHR 0x8B, CHR 0xE4, CHR 0xB8, CHR 0xAD,
      CHR 0xE8, CHR 0xBF, CHR 0x90, CHR 0xE8, CHR 0xA1, CHR 0x8C,
      CHR 0xEF, CHR 0xBC, CHR 0x81]"

definition ready_marker :: string where
  "ready_marker = ''[+] Java '' @
     [CHR 0xE7, CHR 0x8E, CHR 0xAF, CHR 0xE5, CHR 0xA2, CHR 0x83,
      CHR 0xE5, CHR 0x87, CHR 0x86, CHR 0xE5, CHR 0xA4, CHR 0x87,
      CHR 0xE5, CHR 0xB0, CHR 0xB1, CHR 0xE7, CHR 0xBB, CHR 0xAA,
      CHR 0xE3, CHR 0x80, CHR 0x82]"

definition alive_marker :: string where
  "alive_marker = ''[+] '' @
     [CHR 0xE5, CHR 0xA6, CHR 0x82, CHR 0xE6, CHR 0x9E, CHR 0x9C,
      CHR 0xE6, CHR 0x82, CHR 0xA8, CHR 0xE8, CHR 0x83, CHR 0xBD,
      CHR 0xE7, CHR 0x9C, CHR 0x8B, CHR 0xE5, CHR 0x88, CHR 0xB0,
      CHR 0xE8, CHR 0xBF, CHR 0x99, CHR 0xE6, CHR 0x9D, CHR 0xA1,
      CHR 0xE6, CHR 0xB6, CHR 0x88, CHR 0xE6, CHR 0x81, CHR 0xAF,
      CHR 0xEF, CHR 0xBC, CHR 0x8C, CHR 0xE8, CHR 0xAF, CHR 0xB4,
      CHR 0xE6, CHR 0x98, CHR 0x8E, CHR 0xE9, CHR 0x99, CHR 0x84,
      CHR 0xE5, CHR 0x8A, CHR 0xA0, CHR 0xE6, CHR 0x88, CHR 0x90,
      CHR 0xE5, CHR 0x8A, CHR 0x9F, CHR 0xE4, CHR 0xB8, CHR 0x94,
      CHR 0xE7, CHR 0xA8, CHR 0x8B, CHR 0xE5, CHR 0xBA, CHR 0x8F,
      CHR 0xE6, CHR 0x9C, CHR 0xAA, CHR 0xE5, CHR 0xB4, CHR 0xA9,
      CHR 0xE6, CHR 0xBA, CHR 0x83, CHR 0xE3, CHR 0x80, CHR 0x82]"

subsection \<open>The script\<close>

text \<open>Lines 9 to 13: the function handed to \<^verbatim>\<open>Java.perform\<close>.\<close>

definition in_java :: "call list" where
  "in_java =
     [Console_log (newline # attached_marker),
      Console_log ready_marker,
      Console_log alive_marker]"

text \<open>Lines 6 to 15: the function handed to \<^verbatim>\<open>setTimeout\<close>.\<close>

definition deferred :: "call list" where
  "deferred = [Java_perform in_java]"

text \<open>The whole file: the statements run when the script is loaded.\<close>

definition hook_open :: "call list" where
  "hook_open = [Console_log load_marker, SetTimeout deferred 1000]"

section \<open>The host\<close>

text \<open>
  The runtime that loads the script is not part of the repository. Its three
  primitives are given the meaning the specification's sections 5 to 7 and
  glossary give them.
\<close>

datatype error = Context_unavailable

datatype event =
    Wrote nat string      \<comment> \<open>time, text handed to the console\<close>
  | Scheduled nat nat nat \<comment> \<open>time, timer id, delay\<close>
  | Fired nat nat         \<comment> \<open>time, timer id\<close>
  | Entered nat           \<comment> \<open>time\<close>
  | Left nat              \<comment> \<open>time\<close>

record timer =
  ident :: nat
  due :: nat
  callback :: "call list"

record host =
  now :: nat
  next_id :: nat
  pending :: "timer list"
  trace :: "event list"
  uncaught :: "error list"

text \<open>
  What the probe cannot control: when the target process ends (milliseconds
  after load, \<open>None\<close> if it outlives the observation) and whether its managed
  runtime can be entered.
\<close>

record env =
  exit_at :: "nat option"
  java_available :: bool

definition boot :: host where
  "boot = \<lparr>now = 0, next_id = 0, pending = [], trace = [], uncaught = []\<rparr>"

text \<open>
  Modelled from the spec: the host's \<^verbatim>\<open>console.log\<close>, \<^verbatim>\<open>setTimeout\<close> and
  \<^verbatim>\<open>Java.perform\<close>. A log call is one write to the console sink. The
  scheduling primitive takes a callback and a delay in milliseconds and
  registers a one-shot timer. The attachment primitive runs its callback
  inside the managed-runtime context; when the context cannot be obtained it
  throws, and the rest of the calling block is skipped. The result pairs the
  host's state with the exception in flight, if any.
\<close>

fun exec :: "'e env_scheme \<Rightarrow> call \<Rightarrow> host \<Rightarrow> host \<times> error option"
  and exec_all :: "'e env_scheme \<Rightarrow> call list \<Rightarrow> host \<Rightarrow> host \<times> error option"
where
  "exec env (Console_log s) h =
     (h\<lparr>trace := trace h @ [Wrote (now h) s]\<rparr>, None)"
| "exec env (SetTimeout cb d) h =
     (h\<lparr>next_id := Suc (next_id h),
        pending := pending h @ [\<lparr>ident = next_id h, due = now h + d, callback = cb\<rparr>],
        trace := trace h @ [Scheduled (now h) (next_id h) d]\<rparr>, None)"
| "exec env (Java_perform cb) h =
     (if java_available env
      then (case exec_all env cb (h\<lparr>trace := trace h @ [Entered (now h)]\<rparr>) of
              (h', r) \<Rightarrow> (h'\<lparr>trace := trace h' @ [Left (now h')]\<rparr>, r))
      else (h, Some Context_unavailable))"
| "exec_all env [] h = (h, None)"
| "exec_all env (c # cs) h =
     (case exec env c h of
        (h', None) \<Rightarrow> exec_all env cs h'
      | (h', Some e) \<Rightarrow> (h', Some e))"

text \<open>
  Modelled from the spec: an exception that leaves a block the host started is
  handed to the host's own error handling, which the probe does not see.
\<close>

definition toplevel :: "'e env_scheme \<Rightarrow> call list \<Rightarrow> host \<Rightarrow> host" where
  "toplevel env cs h =
     (case exec_all env cs h of
        (h', None) \<Rightarrow> h'
      | (h', Some e) \<Rightarrow> h'\<lparr>uncaught := uncaught h' @ [e]\<rparr>)"

text \<open>
  Modelled from the spec: the process survives \<open>t\<close> milliseconds when it has not
  ended before \<open>t\<close> ("survives \<open>\<ge>\<close> 1000 ms" against "terminates before 1000 ms
  elapse").
\<close>

definition survives :: "'e env_scheme \<Rightarrow> nat \<Rightarrow> bool" where
  "survives env t = (case exit_at env of None \<Rightarrow> True | Some k \<Rightarrow> t \<le> k)"

text \<open>The pending timer that is due first; among equals, the one scheduled first.\<close>

fun earliest :: "timer list \<Rightarrow> timer option" where
  "earliest [] = None"
| "earliest (t # ts) =
     (case earliest ts of
        None \<Rightarrow> Some t
      | Some u \<Rightarrow> if due u < due t then Some u else Some t)"

text \<open>
  Modelled from the spec: a one-shot timer "fires its callback exactly once
  after a fixed delay, then is discarded".
\<close>

definition fire :: "'e env_scheme \<Rightarrow> timer \<Rightarrow> host \<Rightarrow> host" where
  "fire env t h =
     toplevel env (callback t)
       (h\<lparr>now := max (now h) (due t),
          pending := remove1 t (pending h),
          trace := trace h @ [Fired (max (now h) (due t)) (ident t)]\<rparr>)"

text \<open>
  Modelled from the spec: the host's event loop. It fires the timers in the
  order they fall due, for as long as the process lives; a timer that falls
  due after the process has ended never fires.
\<close>

function event_loop :: "'e env_scheme \<Rightarrow> host \<Rightarrow> host" where
  "event_loop env h =
     (case earliest (pending h) of
        None \<Rightarrow> h
      | Some t \<Rightarrow> if survives env (due t) then event_loop env (fire env t h) else h)"
  by pat_completeness auto

text \<open>Loading a script runs its statements to completion at time 0.\<close>

definition load :: "'e env_scheme \<Rightarrow> call list \<Rightarrow> host" where
  "load env script = toplevel env script boot"

definition run :: "'e env_scheme \<Rightarrow> call list \<Rightarrow> host" where
  "run env script = event_loop env (load env script)"

subsection \<open>What an observer sees\<close>

fun writes :: "event list \<Rightarrow> (nat \<times> string) list" where
  "writes [] = []"
| "writes (Wrote t s # es) = (t, s) # writes es"
| "writes (e # es) = writes es"

definition console :: "host \<Rightarrow> string list" where
  "console h = map snd (writes (trace h))"

fun schedulings :: "event list \<Rightarrow> (nat \<times> nat \<times> nat) list" where
  "schedulings [] = []"
| "schedulings (Scheduled t i d # es) = (t, i, d) # schedulings es"
| "schedulings (e # es) = schedulings es"

fun firings :: "event list \<Rightarrow> (nat \<times> nat) list" where
  "firings [] = []"
| "firings (Fired t i # es) = (t, i) # firings es"
| "firings (e # es) = firings es"

text \<open>The texts written while the managed-runtime context is not held.\<close>

fun writes_outside :: "bool \<Rightarrow> event list \<Rightarrow> string list" where
  "writes_outside inside [] = []"
| "writes_outside inside (Wrote t s # es) =
     (if inside then writes_outside inside es else s # writes_outside inside es)"
| "writes_outside inside (Entered t # es) = writes_outside True es"
| "writes_outside inside (Left t # es) = writes_outside False es"
| "writes_outside inside (e # es) = writes_outside inside es"

text \<open>
  Modelled from the spec: the console sink ends every write with a line break,
  and a reader of the sink sees the text cut at line breaks.
\<close>

definition render :: "string list \<Rightarrow> string" where
  "render ws = concat (map (\<lambda>s. s @ [newline]) ws)"

fun split_lines :: "string \<Rightarrow> string \<Rightarrow> string list" where
  "split_lines acc [] = (if acc = [] then [] else [acc])"
| "split_lines acc (c # cs) =
     (if c = newline then acc # split_lines [] cs else split_lines (acc @ [c]) cs)"

definition lines_of :: "string list \<Rightarrow> string list" where
  "lines_of ws = split_lines [] (render ws)"

text \<open>The number of scheduling calls a host call contains.\<close>

fun timers_in :: "call \<Rightarrow> nat" where
  "timers_in (Console_log s) = 0"
| "timers_in (SetTimeout cb d) = Suc (sum_list (map timers_in cb))"
| "timers_in (Java_perform cb) = sum_list (map timers_in cb)"

definition backlog :: "timer list \<Rightarrow> nat" where
  "backlog ts = sum_list (map (\<lambda>t. Suc (sum_list (map timers_in (callback t)))) ts)"

subsection \<open>The states a run of the script passes through\<close>

text \<open>The timer the script registers: the first id, due one delay after load.\<close>

definition the_timer :: timer where
  "the_timer = \<lparr>ident = 0, due = 1000, callback = deferred\<rparr>"

text \<open>\<open>Loaded\<close>, which is also \<open>Waiting\<close>: the script has run, its timer is pending.\<close>

definition loaded :: host where
  "loaded =
     \<lparr>now = 0, next_id = Suc 0, pending = [the_timer],
      trace = [Wrote 0 load_marker, Scheduled 0 0 1000],
      uncaught = []\<rparr>"

text \<open>\<open>Attached\<close>: the timer has fired and the context was entered.\<close>

definition attached :: host where
  "attached =
     \<lparr>now = 1000, next_id = Suc 0, pending = [],
      trace = [Wrote 0 load_marker, Scheduled 0 0 1000, Fired 1000 0,
               Entered 1000,
               Wrote 1000 (newline # attached_marker),
               Wrote 1000 ready_marker,
               Wrote 1000 alive_marker,
               Left 1000],
      uncaught = []\<rparr>"

text \<open>The timer has fired and the context could not be obtained.\<close>

definition refused :: host where
  "refused =
     \<lparr>now = 1000, next_id = Suc 0, pending = [],
      trace = [Wrote 0 load_marker, Scheduled 0 0 1000, Fired 1000 0],
      uncaught = [Context_unavailable]\<rparr>"

text \<open>
  A blank line is acceptable only with the attachment marker as the next line.
\<close>

fun blank_then_attached :: "string list \<Rightarrow> bool" where
  "blank_then_attached [] = True"
| "blank_then_attached [l] = (l \<noteq> [])"
| "blank_then_attached (l # m # ls) =
     ((if l = [] then m = attached_marker else True) \<and> blank_then_attached (m # ls))"

subsection \<open>The invariant of the timer ids\<close>

text \<open>
  The timer ids of a host state: those pending and those that have fired are
  all different and all handed out already. A timer that has fired is not
  pending any more and cannot fire again.
\<close>

definition one_shot :: "host \<Rightarrow> bool" where
  "one_shot h \<longleftrightarrow>
     distinct (map ident (pending h) @ map snd (firings (trace h))) \<and>
     (\<forall>i \<in> set (map ident (pending h) @ map snd (firings (trace h))). i < next_id h)"

section \<open>The event loop terminates\<close>

lemma backlog_append: "backlog (ts @ us) = backlog ts + backlog us"
  by (simp add: backlog_def)

lemma exec_backlog:
  "backlog (pending (fst (exec env c h))) \<le> backlog (pending h) + timers_in c"
  "backlog (pending (fst (exec_all env cs h))) \<le> backlog (pending h) + sum_list (map timers_in cs)"
proof (induction env c h and env cs h rule: exec_exec_all.induct)
  case (1 env s h)
  show ?case by simp
next
  case (2 env cb d h)
  show ?case by (simp add: backlog_append) (simp add: backlog_def)
next
  case (3 env cb h)
  show ?case
  proof (cases "java_available env")
    case True
    with 3 show ?thesis by (cases "exec_all env cb (h\<lparr>trace := trace h @ [Entered (now h)]\<rparr>)") simp
  next
    case False
    then show ?thesis by simp
  qed
next
  case (4 env h)
  show ?case by simp
next
  case (5 env c cs h)
  obtain h' r where run_c: "exec env c h = (h', r)"
    by (cases "exec env c h")
  have head: "backlog (pending h') \<le> backlog (pending h) + timers_in c"
    using 5(1) run_c by simp
  show ?case
  proof (cases r)
    case None
    then have "backlog (pending (fst (exec_all env cs h')))
                 \<le> backlog (pending h') + sum_list (map timers_in cs)"
      using 5(2) run_c by simp
    with head run_c None show ?thesis by simp
  next
    case (Some e)
    with head run_c show ?thesis by simp
  qed
qed

lemma toplevel_backlog:
  "backlog (pending (toplevel env cs h)) \<le> backlog (pending h) + sum_list (map timers_in cs)"
  using exec_backlog(2)[of env cs h]
  by (cases "exec_all env cs h") (simp add: toplevel_def split: option.splits)

lemma earliest_mem: "earliest ts = Some t \<Longrightarrow> t \<in> set ts"
  by (induction ts arbitrary: t) (auto split: option.splits if_splits)

lemma backlog_remove1:
  "t \<in> set ts \<Longrightarrow>
   backlog (remove1 t ts) + Suc (sum_list (map timers_in (callback t))) = backlog ts"
  by (induction ts) (auto simp: backlog_def)

lemma fire_backlog:
  assumes "earliest (pending h) = Some t"
  shows "backlog (pending (fire env t h)) < backlog (pending h)"
proof -
  let ?h1 = "h\<lparr>now := max (now h) (due t), pending := remove1 t (pending h),
                trace := trace h @ [Fired (max (now h) (due t)) (ident t)]\<rparr>"
  have "backlog (pending (fire env t h))
          \<le> backlog (pending ?h1) + sum_list (map timers_in (callback t))"
    unfolding fire_def by (rule toplevel_backlog)
  moreover have "backlog (pending ?h1) + Suc (sum_list (map timers_in (callback t)))
                   = backlog (pending h)"
    using backlog_remove1[OF earliest_mem[OF assms]] by simp
  ultimately show ?thesis by linarith
qed

termination event_loop
  by (relation "measure (\<lambda>(env, h). backlog (pending h))") (auto simp: fire_backlog)

declare event_loop.simps [simp del]

section \<open>Every timer fires at most once\<close>

text \<open>
  This holds of the host whatever script it runs: the ids are kept apart by
  every host call, by every firing and so by the whole event loop.
\<close>

lemma firings_append: "firings (es @ fs) = firings es @ firings fs"
  by (induction es rule: firings.induct) simp_all

lemma exec_one_shot:
  "one_shot h \<Longrightarrow> one_shot (fst (exec env c h))"
  "one_shot h \<Longrightarrow> one_shot (fst (exec_all env cs h))"
proof (induction env c h and env cs h rule: exec_exec_all.induct)
  case (1 env s h)
  then show ?case by (simp add: one_shot_def firings_append)
next
  case (2 env cb d h)
  then have "next_id h \<notin> set (map ident (pending h) @ map snd (firings (trace h)))"
    unfolding one_shot_def by blast
  with 2 show ?case by (simp add: one_shot_def firings_append less_Suc_eq)
next
  case (3 env cb h)
  show ?case
  proof (cases "java_available env")
    case True
    obtain h' r where inner: "exec_all env cb (h\<lparr>trace := trace h @ [Entered (now h)]\<rparr>) = (h', r)"
      by (cases "exec_all env cb (h\<lparr>trace := trace h @ [Entered (now h)]\<rparr>)")
    have "one_shot (h\<lparr>trace := trace h @ [Entered (now h)]\<rparr>)"
      using 3(2) by (simp add: one_shot_def firings_append)
    with 3(1)[OF True] inner have "one_shot h'" by simp
    then have "one_shot (h'\<lparr>trace := trace h' @ [Left (now h')]\<rparr>)"
      by (simp add: one_shot_def firings_append)
    with True inner show ?thesis by simp
  next
    case False
    with 3(2) show ?thesis by simp
  qed
next
  case (4 env h)
  then show ?case by simp
next
  case (5 env c cs h)
  obtain h' r where run_c: "exec env c h = (h', r)"
    by (cases "exec env c h")
  with 5(1)[OF 5(3)] have head: "one_shot h'" by simp
  show ?case
  proof (cases r)
    case None
    with 5(2) run_c head show ?thesis by simp
  next
    case (Some e)
    with head run_c show ?thesis by simp
  qed
qed

lemma toplevel_one_shot: "one_shot h \<Longrightarrow> one_shot (toplevel env cs h)"
  using exec_one_shot(2)[of h env cs]
  by (cases "exec_all env cs h") (auto simp: toplevel_def one_shot_def split: option.splits)

lemma remove1_idents:
  "t \<in> set ps \<Longrightarrow> distinct (map ident ps) \<Longrightarrow>
   distinct (map ident (remove1 t ps)) \<and> ident t \<notin> ident ` set (remove1 t ps) \<and>
   ident ` set (remove1 t ps) \<subseteq> ident ` set ps"
  by (induction ps) (auto simp: image_iff)

lemma fire_one_shot:
  assumes "earliest (pending h) = Some t" and "one_shot h"
  shows "one_shot (fire env t h)"
proof -
  have mem: "t \<in> set (pending h)"
    using assms(1) by (rule earliest_mem)
  from assms(2) have "distinct (map ident (pending h))"
    by (simp add: one_shot_def)
  from remove1_idents[OF mem this] assms(2) mem
  have "one_shot (h\<lparr>now := max (now h) (due t), pending := remove1 t (pending h),
          trace := trace h @ [Fired (max (now h) (due t)) (ident t)]\<rparr>)"
    by (auto simp: one_shot_def firings_append)
  then show ?thesis
    unfolding fire_def by (rule toplevel_one_shot)
qed

lemma event_loop_one_shot: "one_shot h \<Longrightarrow> one_shot (event_loop env h)"
proof (induction env h rule: event_loop.induct)
  case (1 env h)
  show ?case
  proof (cases "earliest (pending h)")
    case None
    with 1(2) show ?thesis by (subst event_loop.simps) simp
  next
    case (Some t)
    show ?thesis
    proof (cases "survives env (due t)")
      case True
      with 1(1)[OF Some True fire_one_shot[OF Some 1(2)]] Some show ?thesis
        by (subst event_loop.simps) simp
    next
      case False
      with 1(2) Some show ?thesis by (subst event_loop.simps) simp
    qed
  qed
qed

lemma run_one_shot: "one_shot (run env script)"
proof -
  have "one_shot boot" by (simp add: one_shot_def boot_def)
  then show ?thesis
    unfolding run_def load_def by (intro event_loop_one_shot toplevel_one_shot)
qed

lemma firings_bounded: "length (firings (trace (run env script))) \<le> next_id (run env script)"
proof -
  let ?ids = "map snd (firings (trace (run env script)))"
  from run_one_shot[of env script]
  have d: "distinct ?ids" and b: "set ?ids \<subseteq> {..< next_id (run env script)}"
    by (auto simp: one_shot_def)
  have "length ?ids = card (set ?ids)"
    using distinct_card[OF d] by simp
  also have "\<dots> \<le> card {..< next_id (run env script)}"
    using b by (intro card_mono) simp_all
  finally show ?thesis by simp
qed

section \<open>Running the script\<close>

lemma event_loop_idle: "pending h = [] \<Longrightarrow> event_loop env h = h"
  by (subst event_loop.simps) simp

lemma event_loop_single:
  "pending h = [t] \<Longrightarrow>
   event_loop env h = (if survives env (due t) then event_loop env (fire env t h) else h)"
  by (subst event_loop.simps) simp

lemma load_hook_open: "load env hook_open = loaded"
  by (simp add: load_def toplevel_def hook_open_def boot_def loaded_def the_timer_def)

lemma exec_all_deferred:
  "exec_all env deferred h =
     (if java_available env
      then (h\<lparr>trace := trace h @
                 [Entered (now h),
                  Wrote (now h) (newline # attached_marker),
                  Wrote (now h) ready_marker,
                  Wrote (now h) alive_marker,
                  Left (now h)]\<rparr>, None)
      else (h, Some Context_unavailable))"
  by (simp add: deferred_def in_java_def)

lemma fire_the_timer:
  "fire env the_timer loaded = (if java_available env then attached else refused)"
  by (simp add: exec_all_deferred loaded_def the_timer_def attached_def refused_def
      fire_def toplevel_def)

lemma run_hook_open:
  "run env hook_open =
     (if survives env 1000 then (if java_available env then attached else refused)
      else loaded)"
proof -
  have due: "due the_timer = 1000"
    by (simp add: the_timer_def)
  have "event_loop env loaded =
          (if survives env (due the_timer) then event_loop env (fire env the_timer loaded)
           else loaded)"
    by (rule event_loop_single) (simp add: loaded_def)
  moreover have "event_loop env attached = attached"
    by (rule event_loop_idle) (simp add: attached_def)
  moreover have "event_loop env refused = refused"
    by (rule event_loop_idle) (simp add: refused_def)
  ultimately show ?thesis
    by (simp add: run_def load_hook_open fire_the_timer due)
qed

lemma run_complete:
  "survives env 1000 \<Longrightarrow> java_available env \<Longrightarrow> run env hook_open = attached"
  by (simp add: run_hook_open)

lemma run_refused:
  "survives env 1000 \<Longrightarrow> \<not> java_available env \<Longrightarrow> run env hook_open = refused"
  by (simp add: run_hook_open)

lemma run_cut_short: "\<not> survives env 1000 \<Longrightarrow> run env hook_open = loaded"
  by (simp add: run_hook_open)

lemma run_outcomes:
  "run env hook_open = loaded \<or> run env hook_open = attached \<or> run env hook_open = refused"
  by (simp add: run_hook_open)

subsection \<open>The console in each outcome\<close>

lemma writes_loaded: "writes (trace loaded) = [(0, load_marker)]"
  by (simp add: loaded_def)

lemma writes_refused: "writes (trace refused) = [(0, load_marker)]"
  by (simp add: refused_def)

lemma writes_attached:
  "writes (trace attached) =
     [(0, load_marker), (1000, newline # attached_marker),
      (1000, ready_marker), (1000, alive_marker)]"
  by (simp add: attached_def)

lemma console_loaded: "console loaded = [load_marker]"
  by (simp add: console_def writes_loaded)

lemma console_refused: "console refused = [load_marker]"
  by (simp add: console_def writes_refused)

lemma console_attached:
  "console attached = [load_marker, newline # attached_marker, ready_marker, alive_marker]"
  by (simp add: console_def writes_attached)

subsection \<open>Lines\<close>

lemma split_lines_line:
  "newline \<notin> set s \<Longrightarrow> split_lines acc (s @ newline # rest) = (acc @ s) # split_lines [] rest"
  by (induction s arbitrary: acc) auto

lemma lines_of_Nil: "lines_of [] = []"
  by (simp add: lines_of_def render_def)

lemma lines_of_Cons: "newline \<notin> set s \<Longrightarrow> lines_of (s # ws) = s # lines_of ws"
  using split_lines_line[of s "[]" "render ws"] by (simp add: lines_of_def render_def)

lemma lines_of_Cons_blank: "lines_of ((newline # s) # ws) = [] # lines_of (s # ws)"
  by (simp add: lines_of_def render_def)

lemma load_marker_one_line: "newline \<notin> set load_marker"
  by (simp add: load_marker_def newline_def)

lemma attached_marker_one_line: "newline \<notin> set attached_marker"
  by (simp add: attached_marker_def newline_def)

lemma ready_marker_one_line: "newline \<notin> set ready_marker"
  by (simp add: ready_marker_def newline_def)

lemma alive_marker_one_line: "newline \<notin> set alive_marker"
  by (simp add: alive_marker_def newline_def)

lemmas one_line =
  load_marker_one_line attached_marker_one_line ready_marker_one_line alive_marker_one_line

lemma markers_not_blank:
  "load_marker \<noteq> []" "attached_marker \<noteq> []" "ready_marker \<noteq> []" "alive_marker \<noteq> []"
  by (simp_all add: load_marker_def attached_marker_def ready_marker_def alive_marker_def)

lemma markers_distinct:
  "load_marker \<noteq> attached_marker" "load_marker \<noteq> ready_marker" "load_marker \<noteq> alive_marker"
  "attached_marker \<noteq> ready_marker" "attached_marker \<noteq> alive_marker"
  "ready_marker \<noteq> alive_marker"
  by (simp_all add: load_marker_def attached_marker_def ready_marker_def alive_marker_def)

lemma load_marker_starts:
  "load_marker \<noteq> newline # s" "ready_marker \<noteq> newline # s" "alive_marker \<noteq> newline # s"
  by (simp_all add: load_marker_def ready_marker_def alive_marker_def newline_def)

lemmas marker_facts =
  markers_distinct markers_distinct[symmetric] markers_not_blank markers_not_blank[symmetric]
  load_marker_starts load_marker_starts[symmetric]

lemma lines_load_only: "lines_of [load_marker] = [load_marker]"
  by (simp add: lines_of_Cons lines_of_Nil one_line)

lemma lines_attached:
  "lines_of (console attached) =
     [load_marker, [], attached_marker, ready_marker, alive_marker]"
  by (simp add: console_attached lines_of_Cons lines_of_Cons_blank lines_of_Nil one_line)

section \<open>The load marker\<close>

text \<open>
  C3. Whatever the target process does later, loading the script writes the
  load marker at time 0, during the load itself and before the event loop
  takes over; the marker is the first write of every run, and it appears
  exactly once among the writes and among the lines of the output.
\<close>

theorem load_marker_first_and_once:
  "writes (trace (load env hook_open)) = [(0, load_marker)] \<and>
   take 1 (writes (trace (run env hook_open))) = [(0, load_marker)] \<and>
   count_list (console (run env hook_open)) load_marker = 1 \<and>
   count_list (lines_of (console (run env hook_open))) load_marker = 1"
proof -
  have first: "writes (trace (load env hook_open)) = [(0, load_marker)]"
    by (simp add: load_hook_open writes_loaded)
  consider (cut) "run env hook_open = loaded" | (entered) "run env hook_open = attached"
    | (failed) "run env hook_open = refused"
    using run_outcomes by blast
  then have "take 1 (writes (trace (run env hook_open))) = [(0, load_marker)] \<and>
      count_list (console (run env hook_open)) load_marker = 1 \<and>
      count_list (lines_of (console (run env hook_open))) load_marker = 1"
  proof cases
    case cut
    then show ?thesis
      by (simp add: writes_loaded console_loaded lines_load_only)
  next
    case entered
    then show ?thesis
      by (simp add: writes_attached lines_attached)
        (simp add: console_attached marker_facts)
  next
    case failed
    then show ?thesis
      by (simp add: writes_refused console_refused lines_load_only)
  qed
  with first show ?thesis by simp
qed

section \<open>The timer\<close>

text \<open>
  C6. In every run the script makes exactly one scheduling call, at load
  (time 0), with the delay 1000 ms; it is the only scheduling call in the text
  of the script, and the deferred action contains none, so nothing is ever
  scheduled again and the delay does not depend on the environment.
\<close>

theorem one_timer_fixed_delay:
  "schedulings (trace (load env hook_open)) = [(0, 0, 1000)] \<and>
   schedulings (trace (run env hook_open)) = [(0, 0, 1000)] \<and>
   sum_list (map timers_in hook_open) = 1 \<and>
   sum_list (map timers_in deferred) = 0"
proof -
  have "schedulings (trace loaded) = [(0, 0, 1000)]"
    by (simp add: loaded_def)
  moreover have "schedulings (trace attached) = [(0, 0, 1000)]"
    by (simp add: attached_def)
  moreover have "schedulings (trace refused) = [(0, 0, 1000)]"
    by (simp add: refused_def)
  moreover have "sum_list (map timers_in hook_open) = 1"
    by (simp add: hook_open_def deferred_def in_java_def)
  moreover have "sum_list (map timers_in deferred) = 0"
    by (simp add: deferred_def in_java_def)
  ultimately show ?thesis
    by (simp add: load_hook_open run_hook_open)
qed

text \<open>
  C4. In every run the deferred action is started at most once: the trace of
  the whole run, which records every step of the event loop, holds at most
  one firing. It holds exactly one, of the script's one timer at 1000 ms, when
  the process lives that long, and none otherwise.
\<close>

theorem deferred_action_at_most_once:
  "length (firings (trace (run env hook_open))) \<le> 1 \<and>
   firings (trace (run env hook_open)) = (if survives env 1000 then [(1000, 0)] else [])"
proof -
  have "next_id loaded = 1" "next_id attached = 1" "next_id refused = 1"
    by (simp_all add: loaded_def attached_def refused_def)
  then have "next_id (run env hook_open) = 1"
    by (simp add: run_hook_open)
  with firings_bounded[of env hook_open]
  have once: "length (firings (trace (run env hook_open))) \<le> 1"
    by simp
  have "firings (trace loaded) = []" "firings (trace attached) = [(1000, 0)]"
    "firings (trace refused) = [(1000, 0)]"
    by (simp_all add: loaded_def attached_def refused_def)
  then have "firings (trace (run env hook_open)) =
      (if survives env 1000 then [(1000, 0)] else [])"
    by (simp add: run_hook_open)
  with once show ?thesis ..
qed

section \<open>The deferred action\<close>

text \<open>
  C5. Started in any host state, the deferred action does one thing: it asks
  for the managed-runtime context. When the context is granted it enters it,
  makes three writes inside it (the attachment marker, the runtime-ready
  marker and the no-crash marker, the only non-blank lines of those writes)
  and leaves it; when it is refused nothing is written at all. In either case
  no timer is touched, and in the whole run the only text written outside the
  context is the load marker: no late line is written outside it.
\<close>

theorem deferred_action_behaviour:
  "exec_all env deferred h =
     (if java_available env
      then (h\<lparr>trace := trace h @
                 [Entered (now h),
                  Wrote (now h) (newline # attached_marker),
                  Wrote (now h) ready_marker,
                  Wrote (now h) alive_marker,
                  Left (now h)]\<rparr>, None)
      else (h, Some Context_unavailable)) \<and>
   filter (\<lambda>l. l \<noteq> []) (lines_of [newline # attached_marker, ready_marker, alive_marker]) =
     [attached_marker, ready_marker, alive_marker] \<and>
   writes_outside False (trace (run env hook_open)) = [load_marker]"
proof -
  have "lines_of [newline # attached_marker, ready_marker, alive_marker] =
          [[], attached_marker, ready_marker, alive_marker]"
    by (simp add: lines_of_Cons lines_of_Cons_blank lines_of_Nil one_line)
  then have three: "filter (\<lambda>l. l \<noteq> [])
      (lines_of [newline # attached_marker, ready_marker, alive_marker]) =
      [attached_marker, ready_marker, alive_marker]"
    by (simp add: markers_not_blank)
  have "writes_outside False (trace loaded) = [load_marker]"
    "writes_outside False (trace attached) = [load_marker]"
    "writes_outside False (trace refused) = [load_marker]"
    by (simp_all add: loaded_def attached_def refused_def)
  then have outside: "writes_outside False (trace (run env hook_open)) = [load_marker]"
    by (simp add: run_hook_open)
  from exec_all_deferred three outside show ?thesis
    by (rule conjI[OF _ conjI])
qed

section \<open>Runs that do not complete\<close>

text \<open>
  C7. When the target process ends \<open>k\<close> ms after load with \<open>k < 1000\<close>, the
  timer never fires: the run ends in the state the load left, the console
  holds the load marker and nothing else, as a single line, and the timer is
  still pending, never fired.
\<close>

theorem early_exit_only_load_marker:
  assumes "exit_at env = Some k" and "k < 1000"
  shows "run env hook_open = load env hook_open \<and>
         console (run env hook_open) = [load_marker] \<and>
         lines_of (console (run env hook_open)) = [load_marker] \<and>
         firings (trace (run env hook_open)) = [] \<and>
         pending (run env hook_open) = [the_timer]"
proof -
  from assms have "\<not> survives env 1000"
    by (simp add: survives_def)
  then have "run env hook_open = loaded"
    by (rule run_cut_short)
  moreover have "firings (trace loaded) = []" "pending loaded = [the_timer]"
    by (simp_all add: loaded_def)
  ultimately show ?thesis
    by (simp add: load_hook_open console_loaded lines_load_only)
qed

theorem early_exit_only_load_marker_witness:
  "exit_at \<lparr>exit_at = Some 500, java_available = True\<rparr> = Some 500 \<and> (500::nat) < 1000 \<and>
   run \<lparr>exit_at = Some 500, java_available = True\<rparr> hook_open =
     load \<lparr>exit_at = Some 500, java_available = True\<rparr> hook_open \<and>
   console (run \<lparr>exit_at = Some 500, java_available = True\<rparr> hook_open) = [load_marker] \<and>
   lines_of (console (run \<lparr>exit_at = Some 500, java_available = True\<rparr> hook_open)) =
     [load_marker] \<and>
   firings (trace (run \<lparr>exit_at = Some 500, java_available = True\<rparr> hook_open)) = [] \<and>
   pending (run \<lparr>exit_at = Some 500, java_available = True\<rparr> hook_open) = [the_timer]"
proof -
  have ends: "exit_at \<lparr>exit_at = Some 500, java_available = True\<rparr> = Some 500"
    by simp
  have early: "(500::nat) < 1000"
    by simp
  show ?thesis
    by (rule conjI[OF ends conjI[OF early early_exit_only_load_marker[OF ends early]]])
qed

text \<open>
  C8. When the process lives to see the timer fire and the managed-runtime
  context cannot be obtained, the deferred action changes nothing and ends
  with the exception in flight: the script has no handler, so the exception
  reaches the host, which is the only one to record it. The probe writes no
  report (the console holds the load marker alone), schedules nothing again
  (one scheduling in the whole run, no timer pending) and its timer has fired
  the one time.
\<close>

theorem unavailable_context_unhandled:
  assumes "survives env 1000" and "\<not> java_available env"
  shows "exec_all env deferred h = (h, Some Context_unavailable) \<and>
         uncaught (run env hook_open) = [Context_unavailable] \<and>
         console (run env hook_open) = [load_marker] \<and>
         schedulings (trace (run env hook_open)) = [(0, 0, 1000)] \<and>
         firings (trace (run env hook_open)) = [(1000, 0)] \<and>
         pending (run env hook_open) = []"
proof -
  from assms have "run env hook_open = refused"
    by (rule run_refused)
  moreover have "uncaught refused = [Context_unavailable]"
    "schedulings (trace refused) = [(0, 0, 1000)]"
    "firings (trace refused) = [(1000, 0)]" "pending refused = []"
    by (simp_all add: refused_def)
  moreover from assms(2) have "exec_all env deferred h = (h, Some Context_unavailable)"
    by (simp add: exec_all_deferred)
  ultimately show ?thesis
    by (simp add: console_refused)
qed

theorem unavailable_context_unhandled_witness:
  "survives \<lparr>exit_at = None, java_available = False\<rparr> 1000 \<and>
   exec_all \<lparr>exit_at = None, java_available = False\<rparr> deferred loaded =
     (loaded, Some Context_unavailable) \<and>
   uncaught (run \<lparr>exit_at = None, java_available = False\<rparr> hook_open) =
     [Context_unavailable] \<and>
   console (run \<lparr>exit_at = None, java_available = False\<rparr> hook_open) = [load_marker] \<and>
   schedulings (trace (run \<lparr>exit_at = None, java_available = False\<rparr> hook_open)) =
     [(0, 0, 1000)] \<and>
   firings (trace (run \<lparr>exit_at = None, java_available = False\<rparr> hook_open)) = [(1000, 0)] \<and>
   pending (run \<lparr>exit_at = None, java_available = False\<rparr> hook_open) = []"
proof -
  have lives: "survives \<lparr>exit_at = None, java_available = False\<rparr> 1000"
    by (simp add: survives_def)
  have refusal: "\<not> java_available \<lparr>exit_at = None, java_available = False\<rparr>"
    by simp
  show ?thesis
    by (rule conjI[OF lives unavailable_context_unhandled[OF lives refusal]])
qed

section \<open>Determinism\<close>

text \<open>
  C10. Any two complete runs (the timer fires and the context is granted), in
  environments of any kind and with anything else in them, end in the same
  host state: the same trace with the same times, and on the console the same
  four constant strings in the same order.
\<close>

theorem complete_runs_identical:
  fixes env :: "'a env_scheme" and env' :: "'b env_scheme"
  assumes "survives env 1000" and "java_available env"
    and "survives env' 1000" and "java_available env'"
  shows "run env hook_open = run env' hook_open \<and>
         trace (run env hook_open) = trace (run env' hook_open) \<and>
         console (run env hook_open) =
           [load_marker, newline # attached_marker, ready_marker, alive_marker] \<and>
         console (run env' hook_open) =
           [load_marker, newline # attached_marker, ready_marker, alive_marker]"
proof -
  have "run env hook_open = attached"
    using assms(1,2) by (rule run_complete)
  moreover have "run env' hook_open = attached"
    using assms(3,4) by (rule run_complete)
  ultimately show ?thesis
    by (simp add: console_attached)
qed

theorem complete_runs_identical_witness:
  "survives \<lparr>exit_at = None, java_available = True\<rparr> 1000 \<and>
   survives \<lparr>exit_at = Some 2000, java_available = True\<rparr> 1000 \<and>
   run \<lparr>exit_at = None, java_available = True\<rparr> hook_open =
     run \<lparr>exit_at = Some 2000, java_available = True\<rparr> hook_open \<and>
   trace (run \<lparr>exit_at = None, java_available = True\<rparr> hook_open) =
     trace (run \<lparr>exit_at = Some 2000, java_available = True\<rparr> hook_open) \<and>
   console (run \<lparr>exit_at = None, java_available = True\<rparr> hook_open) =
     [load_marker, newline # attached_marker, ready_marker, alive_marker] \<and>
   console (run \<lparr>exit_at = Some 2000, java_available = True\<rparr> hook_open) =
     [load_marker, newline # attached_marker, ready_marker, alive_marker]"
proof -
  have lives: "survives \<lparr>exit_at = None, java_available = True\<rparr> 1000"
    by (simp add: survives_def)
  have lives': "survives \<lparr>exit_at = Some 2000, java_available = True\<rparr> 1000"
    by (simp add: survives_def)
  have granted: "java_available \<lparr>exit_at = None, java_available = True\<rparr>"
    "java_available \<lparr>exit_at = Some 2000, java_available = True\<rparr>"
    by simp_all
  show ?thesis
    by (rule conjI[OF lives conjI[OF lives'
          complete_runs_identical[OF lives granted(1) lives' granted(2)]]])
qed

section \<open>Complete runs\<close>

text \<open>
  C1. In every complete run (the timer fires and the callback runs inside the
  managed-runtime context) the probe's output is exactly four log lines, one
  per log write: the load marker, the attachment marker, the runtime-ready
  marker and the no-crash marker, always in this order. They are the four
  non-blank lines of the output; the blank separator that opens the second
  write is not a log line of its own. The first line is written at load and
  the other three one configured delay (1000 ms) later.
\<close>

theorem complete_run_output:
  assumes "survives env 1000" and "java_available env"
  shows "length (writes (trace (run env hook_open))) = 4 \<and>
         writes (trace (run env hook_open)) =
           [(0, load_marker), (1000, newline # attached_marker),
            (1000, ready_marker), (1000, alive_marker)] \<and>
         schedulings (trace (run env hook_open)) = [(0, 0, 1000)] \<and>
         length (filter (\<lambda>l. l \<noteq> []) (lines_of (console (run env hook_open)))) = 4 \<and>
         filter (\<lambda>l. l \<noteq> []) (lines_of (console (run env hook_open))) =
           [load_marker, attached_marker, ready_marker, alive_marker]"
proof -
  from assms have "run env hook_open = attached"
    by (rule run_complete)
  moreover have "schedulings (trace attached) = [(0, 0, 1000)]"
    by (simp add: attached_def)
  ultimately show ?thesis
    by (simp add: writes_attached lines_attached markers_not_blank)
qed

theorem complete_run_output_witness:
  "survives \<lparr>exit_at = Some 2000, java_available = True\<rparr> 1000 \<and>
   length (writes (trace (run \<lparr>exit_at = Some 2000, java_available = True\<rparr> hook_open))) = 4 \<and>
   writes (trace (run \<lparr>exit_at = Some 2000, java_available = True\<rparr> hook_open)) =
     [(0, load_marker), (1000, newline # attached_marker),
      (1000, ready_marker), (1000, alive_marker)] \<and>
   schedulings (trace (run \<lparr>exit_at = Some 2000, java_available = True\<rparr> hook_open)) =
     [(0, 0, 1000)] \<and>
   length (filter (\<lambda>l. l \<noteq> [])
       (lines_of (console (run \<lparr>exit_at = Some 2000, java_available = True\<rparr> hook_open)))) = 4 \<and>
   filter (\<lambda>l. l \<noteq> [])
       (lines_of (console (run \<lparr>exit_at = Some 2000, java_available = True\<rparr> hook_open))) =
     [load_marker, attached_marker, ready_marker, alive_marker]"
proof -
  have lives: "survives \<lparr>exit_at = Some 2000, java_available = True\<rparr> 1000"
    by (simp add: survives_def)
  have granted: "java_available \<lparr>exit_at = Some 2000, java_available = True\<rparr>"
    by simp
  show ?thesis
    by (rule conjI[OF lives complete_run_output[OF lives granted]])
qed

text \<open>
  C2, as the claim has it: survival for 1000 ms is enough for the three late
  lines. It fails for a target that lives on but has no managed runtime to
  enter: the timer fires and none of the three lines is ever written.
\<close>

theorem survival_alone_counterexample:
  "survives \<lparr>exit_at = None, java_available = False\<rparr> 1000 \<and>
   lines_of (console (run \<lparr>exit_at = None, java_available = False\<rparr> hook_open)) =
     [load_marker] \<and>
   count_list (lines_of (console (run \<lparr>exit_at = None, java_available = False\<rparr> hook_open)))
     attached_marker = 0 \<and>
   count_list (lines_of (console (run \<lparr>exit_at = None, java_available = False\<rparr> hook_open)))
     ready_marker = 0 \<and>
   count_list (lines_of (console (run \<lparr>exit_at = None, java_available = False\<rparr> hook_open)))
     alive_marker = 0"
proof -
  have "run \<lparr>exit_at = None, java_available = False\<rparr> hook_open = refused"
    by (rule run_refused) (simp_all add: survives_def)
  then show ?thesis
    by (simp add: console_refused lines_load_only survives_def marker_facts)
qed

text \<open>
  C2, amended. If the process survives at least 1000 ms after load and the
  managed-runtime context is granted, each of the three late lines is in the
  output exactly once, they come in the order attachment, runtime-ready,
  no-crash, and all three come after the load marker, both in the output and
  in time (written at 1000 ms, the load marker at 0).
\<close>

theorem late_lines_once_in_order:
  assumes "survives env 1000" and "java_available env"
  shows "count_list (lines_of (console (run env hook_open))) attached_marker = 1 \<and>
         count_list (lines_of (console (run env hook_open))) ready_marker = 1 \<and>
         count_list (lines_of (console (run env hook_open))) alive_marker = 1 \<and>
         filter (\<lambda>l. l \<noteq> []) (lines_of (console (run env hook_open))) =
           [load_marker, attached_marker, ready_marker, alive_marker] \<and>
         writes (trace (run env hook_open)) =
           [(0, load_marker), (1000, newline # attached_marker),
            (1000, ready_marker), (1000, alive_marker)]"
proof -
  from assms have "run env hook_open = attached"
    by (rule run_complete)
  then show ?thesis
    by (simp add: writes_attached lines_attached marker_facts)
qed

theorem late_lines_once_in_order_witness:
  "survives \<lparr>exit_at = Some 1000, java_available = True\<rparr> 1000 \<and>
   count_list (lines_of (console (run \<lparr>exit_at = Some 1000, java_available = True\<rparr> hook_open)))
     attached_marker = 1 \<and>
   count_list (lines_of (console (run \<lparr>exit_at = Some 1000, java_available = True\<rparr> hook_open)))
     ready_marker = 1 \<and>
   count_list (lines_of (console (run \<lparr>exit_at = Some 1000, java_available = True\<rparr> hook_open)))
     alive_marker = 1 \<and>
   filter (\<lambda>l. l \<noteq> [])
       (lines_of (console (run \<lparr>exit_at = Some 1000, java_available = True\<rparr> hook_open))) =
     [load_marker, attached_marker, ready_marker, alive_marker] \<and>
   writes (trace (run \<lparr>exit_at = Some 1000, java_available = True\<rparr> hook_open)) =
     [(0, load_marker), (1000, newline # attached_marker),
      (1000, ready_marker), (1000, alive_marker)]"
proof -
  have lives: "survives \<lparr>exit_at = Some 1000, java_available = True\<rparr> 1000"
    by (simp add: survives_def)
  have granted: "java_available \<lparr>exit_at = Some 1000, java_available = True\<rparr>"
    by simp
  show ?thesis
    by (rule conjI[OF lives late_lines_once_in_order[OF lives granted]])
qed

text \<open>
  C9. In every complete run the probe makes four writes and the output has
  five lines, because the text of the second write starts with a line break:
  that one write yields the blank line and the attachment marker together.
  So at no point of the run, after any number of the writes, does the output
  show a blank line that is not followed at once by the attachment marker.
\<close>

theorem blank_line_comes_with_attached_marker:
  assumes "survives env 1000" and "java_available env"
  shows "length (console (run env hook_open)) = 4 \<and>
         length (lines_of (console (run env hook_open))) = 5 \<and>
         console (run env hook_open) ! 1 = newline # attached_marker \<and>
         lines_of [console (run env hook_open) ! 1] = [[], attached_marker] \<and>
         (\<forall>n. blank_then_attached (lines_of (take n (console (run env hook_open)))))"
proof -
  from assms have final: "run env hook_open = attached"
    by (rule run_complete)
  have second: "lines_of [newline # attached_marker] = [[], attached_marker]"
    by (simp add: lines_of_Cons lines_of_Cons_blank lines_of_Nil one_line)
  have "blank_then_attached (lines_of (take n (console attached)))" for n
  proof -
    consider "n = 0" | "n = 1" | "n = 2" | "n = 3" | "4 \<le> n"
      by linarith
    then show ?thesis
    proof cases
      case 1
      then show ?thesis by (simp add: lines_of_Nil)
    next
      case 2
      then show ?thesis
        by (simp add: console_attached lines_load_only marker_facts)
    next
      case 3
      then show ?thesis
        by (simp add: console_attached lines_of_Cons lines_of_Cons_blank lines_of_Nil
            one_line marker_facts)
    next
      case 4
      then show ?thesis
        by (simp add: console_attached lines_of_Cons lines_of_Cons_blank lines_of_Nil
            one_line marker_facts)
    next
      case 5
      then have "take n (console attached) = console attached"
        by (simp add: console_attached)
      then show ?thesis
        by (simp add: lines_attached marker_facts)
    qed
  qed
  with final second show ?thesis
    by (simp add: lines_attached) (simp add: console_attached)
qed

theorem blank_line_comes_with_attached_marker_witness:
  "survives \<lparr>exit_at = None, java_available = True\<rparr> 1000 \<and>
   length (console (run \<lparr>exit_at = None, java_available = True\<rparr> hook_open)) = 4 \<and>
   length (lines_of (console (run \<lparr>exit_at = None, java_available = True\<rparr> hook_open))) = 5 \<and>
   console (run \<lparr>exit_at = None, java_available = True\<rparr> hook_open) ! 1 =
     newline # attached_marker \<and>
   lines_of [console (run \<lparr>exit_at = None, java_available = True\<rparr> hook_open) ! 1] =
     [[], attached_marker] \<and>
   (\<forall>n. blank_then_attached
      (lines_of (take n (console (run \<lparr>exit_at = None, java_available = True\<rparr> hook_open)))))"
proof -
  have lives: "survives \<lparr>exit_at = None, java_available = True\<rparr> 1000"
    by (simp add: survives_def)
  have granted: "java_available \<lparr>exit_at = None, java_available = True\<rparr>"
    by simp
  show ?thesis
    by (rule conjI[OF lives blank_line_comes_with_attached_marker[OF lives granted]])
qed


end
